theory Spec2Isabelle
  imports Main "HOL-Library.Word" "HOL-Library.Multiset"
begin

section \<open>JavaScript values and plain objects\<close>

text \<open>
  Sizes are JavaScript numbers that hold byte counts and their differences; they are
  integers far below \<open>2^53\<close>, so \<open>int\<close> arithmetic is exact for them. A slot of a size
  map built by \<open>getSizes\<close> can also hold \<open>null\<close> (the file could not be read) or
  \<open>undefined\<close> (\<open>values[i]\<close> read past the end of the array).
\<close>

datatype jsval = Num int | Null | Undefined

text \<open>
  A plain object is the list of its own enumerable properties in the order in which
  \<open>Object.keys\<close> enumerates them. Assigning to an existing key keeps the key's position,
  assigning to a new key appends it. This is the enumeration order of JavaScript for
  keys that are not canonical array indices; file names that are decimal numerals and
  file names that collide with a member of \<open>Object.prototype\<close> are outside the model.
\<close>

type_synonym 'v obj = "(string \<times> 'v) list"

definition object_keys :: "'v obj \<Rightarrow> string list" where
  "object_keys ob = map fst ob"

fun obj_set :: "'v obj \<Rightarrow> string \<Rightarrow> 'v \<Rightarrow> 'v obj" where
  "obj_set [] k v = [(k, v)]"
| "obj_set ((k', v') # ps) k v =
     (if k' = k then (k, v) # ps else (k', v') # obj_set ps k v)"

text \<open>\<open>ob[name]\<close>: the value of the own property, \<open>undefined\<close> when there is none.\<close>

definition obj_get :: "jsval obj \<Rightarrow> string \<Rightarrow> jsval" where
  "obj_get ob k = (case map_of ob k of None \<Rightarrow> Undefined | Some v \<Rightarrow> v)"

text \<open>\<open>v || 0\<close>: \<open>null\<close>, \<open>undefined\<close> and \<open>0\<close> are falsy.\<close>

fun or_zero :: "jsval \<Rightarrow> int" where
  "or_zero (Num n) = (if n \<noteq> 0 then n else 0)"
| "or_zero Null = 0"
| "or_zero Undefined = 0"

text \<open>
  \<open>Array.prototype.indexOf\<close>: the first index holding the item, \<open>-1\<close> when there is none.
\<close>

fun indexOf :: "'a list \<Rightarrow> 'a \<Rightarrow> int" where
  "indexOf [] x = - 1"
| "indexOf (y # ys) x =
     (if y = x then 0
      else (let r = indexOf ys x in if r = - 1 then - 1 else r + 1))"

text \<open>
  \<open>Array.prototype.filter\<close> with a callback that receives the item, its index and the
  array.
\<close>

definition array_filter :: "('a \<Rightarrow> nat \<Rightarrow> 'a list \<Rightarrow> bool) \<Rightarrow> 'a list \<Rightarrow> 'a list" where
  "array_filter p arr =
     map fst (filter (\<lambda>(item, index). p item index arr) (zip arr [0..<length arr]))"

section \<open>The utility functions\<close>

text \<open>\<open>values[i]\<close>, which is \<open>undefined\<close> past the end of the array.\<close>

definition value_at :: "jsval list \<Rightarrow> nat \<Rightarrow> jsval" where
  "value_at vs i = (if i < length vs then vs ! i else Undefined)"

text \<open>
  \<open>__utils.toMap\<close>: \<open>names.reduce((map, name, i) => { map[name] = values[i]; return map }, {})\<close>.
\<close>

definition toMap_step :: "jsval list \<Rightarrow> jsval obj \<Rightarrow> string \<times> nat \<Rightarrow> jsval obj" where
  "toMap_step vs m p = (case p of (name, i) \<Rightarrow> obj_set m name (value_at vs i))"

definition toMap :: "string list \<Rightarrow> jsval list \<Rightarrow> jsval obj" where
  "toMap names vs = foldl (toMap_step vs) [] (zip names [0..<length names])"

text \<open>\<open>__utils.dedupe\<close>: \<open>arr.indexOf(item) === index\<close>.\<close>

definition dedupe :: "'a \<Rightarrow> nat \<Rightarrow> 'a list \<Rightarrow> bool" where
  "dedupe item index arr = (indexOf arr item = int index)"

text \<open>One entry of the \<open>files\<close> array of a snapshot.\<close>

record file_delta =
  filename :: string
  previous :: int
  file_size :: int
  diff :: int

text \<open>
  \<open>__utils.toFileMap\<close>: the reduce keeps \<open>file.size\<close> under \<open>file.filename\<close> when
  \<open>file.size\<close> is truthy, that is, for a number, when it is not zero.
\<close>

definition toFileMap_step :: "jsval obj \<Rightarrow> file_delta \<Rightarrow> jsval obj" where
  "toFileMap_step result file =
     (if file_size file \<noteq> 0
      then obj_set result (filename file) (Num (file_size file))
      else result)"

definition toFileMap :: "file_delta list \<Rightarrow> jsval obj" where
  "toFileMap fs = foldl toFileMap_step [] fs"

section \<open>Comparing the sizes before and after\<close>

text \<open>
  One element of \<open>items\<close> in \<open>outputSizes\<close>. The fields that only carry console text
  (\<open>sizeText\<close>, \<open>deltaText\<close>, \<open>msg\<close>, \<open>color\<close>) are left out.
\<close>

record item =
  name :: string
  sizeBefore :: int
  item_size :: int
  delta :: int

text \<open>
  The list \<open>files\<close> of \<open>outputSizes\<close>:
  \<open>[...Object.keys(sizesBefore), ...Object.keys(sizesAfter)].filter(__utils.dedupe)\<close>.
\<close>

definition uniqueNames :: "jsval obj \<Rightarrow> jsval obj \<Rightarrow> string list" where
  "uniqueNames sizesBefore sizesAfter =
     array_filter dedupe (object_keys sizesBefore @ object_keys sizesAfter)"

text \<open>The body of the loop \<open>for (const name of files)\<close>, without the console text.\<close>

definition mkItem :: "jsval obj \<Rightarrow> jsval obj \<Rightarrow> string \<Rightarrow> item" where
  "mkItem sizesBefore sizesAfter nm =
     (let sz = or_zero (obj_get sizesAfter nm);
          szBefore = or_zero (obj_get sizesBefore nm)
      in \<lparr>name = nm, sizeBefore = szBefore, item_size = sz, delta = sz - szBefore\<rparr>)"

definition outputSizes_items :: "jsval obj \<Rightarrow> jsval obj \<Rightarrow> item list" where
  "outputSizes_items sizesBefore sizesAfter =
     map (mkItem sizesBefore sizesAfter) (uniqueNames sizesBefore sizesAfter)"

text \<open>The callback of \<open>files.map\<close> in \<open>save\<close>.\<close>

definition toFileDelta :: "item \<Rightarrow> file_delta" where
  "toFileDelta file =
     \<lparr>filename = name file, previous = sizeBefore file, file_size = item_size file,
      diff = item_size file - sizeBefore file\<rparr>"

text \<open>
  The \<open>files\<close> of the snapshot that \<open>save\<close> builds from the items of \<open>outputSizes\<close>:
  the reconciliation of the sizes before with the sizes after.
\<close>

definition reconcile :: "jsval obj \<Rightarrow> jsval obj \<Rightarrow> file_delta list" where
  "reconcile sizesBefore sizesAfter = map toFileDelta (outputSizes_items sizesBefore sizesAfter)"

section \<open>Options, collaborators and state\<close>

text \<open>The three values of \<open>compression\<close>: \<open>'none'\<close>, \<open>'gzip'\<close> and \<open>'brotli'\<close>.\<close>

datatype compression_type = NoCompression | Gzip | Brotli

text \<open>
  The merged \<open>options\<close> object, with the fields the engine reads. \<open>filename\<close> only names
  the history file, which is the one file of the disk model below; \<open>columnWidth\<close> only
  pads console text.
\<close>

record options =
  compression :: compression_type
  compressionLevel :: int
  pattern :: string
  exclude :: string
  writeFile :: bool

datatype js_error = BrotliNotSupported | TypeError | ZlibError

type_synonym bytes = "8 word list"

text \<open>
  What the engine calls and does not define: the two compressors of \<open>zlib\<close>
  (\<open>brotliCompress\<close> is \<open>None\<close> when \<open>zlib.brotliCompress\<close> is undefined), \<open>glob\<close> (pattern,
  directory, ignore pattern), \<open>minimatch\<close> (pattern, file name), \<open>fs.promises.readFile\<close>
  (directory, file name; \<open>None\<close> when the read is rejected) and \<open>Date.now\<close>.
\<close>

record env =
  gzip :: "int \<Rightarrow> bytes \<Rightarrow> js_error + bytes"
  brotliCompress :: "(int \<Rightarrow> bytes \<Rightarrow> js_error + bytes) option"
  glob :: "string \<Rightarrow> string \<Rightarrow> string \<Rightarrow> string list"
  minimatch :: "string \<Rightarrow> string \<Rightarrow> bool"
  readFile :: "string \<Rightarrow> string \<Rightarrow> bytes option"
  now :: int

record snapshot =
  timestamp :: int
  compressionType :: compression_type
  snapshot_level :: int
  files :: "file_delta list"

text \<open>
  The history file: \<open>history_file\<close> is what \<open>fs.readJSON\<close> yields (\<open>None\<close> when the file is
  missing or does not parse to an array of snapshots), \<open>fs_log\<close> records every call that
  modifies the file system.
\<close>

datatype fs_event = EnsureFile | WriteJSON "snapshot list"

record disk =
  history_file :: "snapshot list option"
  fs_log :: "fs_event list"

text \<open>
  The variables \<open>pattern\<close>, \<open>initialSizes\<close> and \<open>isSingleChunk\<close> of the closure. The
  variables \<open>exclude\<close> and \<open>compression\<close> are never assigned again and are read from the
  options.
\<close>

record closure =
  pattern_var :: string
  initialSizes :: "jsval obj"
  isSingleChunk :: bool

text \<open>\<open>let { pattern, exclude, compression } = options\<close> in \<open>bundleSize\<close>.\<close>

definition bundleSize :: "options \<Rightarrow> closure" where
  "bundleSize opts = \<lparr>pattern_var = pattern opts, initialSizes = [], isSingleChunk = False\<rparr>"

datatype output_type = Chunk | Asset

text \<open>
  An entry of the bundle; \<open>code\<close> is the UTF-8 encoding of the chunk's code and is absent
  (\<open>undefined\<close>) on an asset.
\<close>

record output_file =
  ftype :: output_type
  fileName :: string
  code :: "bytes option"

datatype console_entry = ConsoleError js_error | ConsoleLog "item list"

section \<open>The engine\<close>

text \<open>
  \<open>Promise.all\<close> over tasks that have settled: the values in order, or the rejection
  of the first task that failed.
\<close>

fun promise_all :: "('e + 'a) list \<Rightarrow> 'e + 'a list" where
  "promise_all [] = Inr []"
| "promise_all (Inl e # rs) = Inl e"
| "promise_all (Inr v # rs) =
     (case promise_all rs of Inl e \<Rightarrow> Inl e | Inr vs \<Rightarrow> Inr (v # vs))"

text \<open>
  \<open>getCompressedSize\<close>. \<open>Buffer.byteLength\<close> throws a \<open>TypeError\<close> on an \<open>undefined\<close>
  source. The promisified compressors do not: they end their stream without data, so
  an \<open>undefined\<close> source is compressed as the empty input. The brotli test comes
  before the source is touched.
\<close>

definition byteLength :: "bytes option \<Rightarrow> js_error + int" where
  "byteLength buf = (case buf of None \<Rightarrow> Inl TypeError | Some b \<Rightarrow> Inr (int (length b)))"

definition run_compressor ::
  "(int \<Rightarrow> bytes \<Rightarrow> js_error + bytes) \<Rightarrow> int \<Rightarrow> bytes option \<Rightarrow> js_error + int" where
  "run_compressor f level source =
     (case f level (case source of None \<Rightarrow> [] | Some src \<Rightarrow> src) of
        Inl e \<Rightarrow> Inl e
      | Inr compressed \<Rightarrow> byteLength (Some compressed))"

definition getCompressedSize :: "env \<Rightarrow> options \<Rightarrow> bytes option \<Rightarrow> js_error + int" where
  "getCompressedSize en opts source =
     (case compression opts of
        Gzip \<Rightarrow> run_compressor (gzip en) (compressionLevel opts) source
      | Brotli \<Rightarrow>
          (case brotliCompress en of
             None \<Rightarrow> Inl BrotliNotSupported
           | Some br \<Rightarrow> run_compressor br (compressionLevel opts) source)
      | NoCompression \<Rightarrow> byteLength source)"

text \<open>\<open>filterFiles\<close>; an empty \<open>exclude\<close> is falsy and excludes nothing.\<close>

definition filterFiles :: "env \<Rightarrow> options \<Rightarrow> closure \<Rightarrow> string list \<Rightarrow> string list" where
  "filterFiles en opts st fs =
     (let isMatched = minimatch en (pattern_var st);
          isExcluded = (if exclude opts \<noteq> [] then minimatch en (exclude opts) else (\<lambda>_. False))
      in filter (\<lambda>file. isMatched file \<and> \<not> isExcluded file) fs)"

text \<open>
  \<open>readFromDisk\<close>. \<open>Array.prototype.sort\<close> is stable, and so is \<open>sort_key\<close>; the
  comparator \<open>b.timestamp - a.timestamp\<close> orders by descending timestamp.
\<close>

definition readFromDisk :: "options \<Rightarrow> disk \<Rightarrow> snapshot list" where
  "readFromDisk opts dsk =
     (if \<not> writeFile opts then []
      else (case history_file dsk of
              None \<Rightarrow> []
            | Some oldStats \<Rightarrow> sort_key (\<lambda>s. - timestamp s) oldStats))"

text \<open>The task that \<open>getSizes\<close> starts for one file.\<close>

definition measureFile :: "env \<Rightarrow> options \<Rightarrow> string \<Rightarrow> string \<Rightarrow> js_error + jsval" where
  "measureFile en opts cwd file =
     (case readFile en cwd file of
        None \<Rightarrow> Inr Null
      | Some source \<Rightarrow>
          (case getCompressedSize en opts (Some source) of
             Inl e \<Rightarrow> Inl e
           | Inr n \<Rightarrow> Inr (Num n)))"

definition getSizes :: "env \<Rightarrow> options \<Rightarrow> closure \<Rightarrow> string \<Rightarrow> js_error + jsval obj" where
  "getSizes en opts st cwd =
     (let fs = glob en (pattern_var st) cwd (exclude opts) in
      case promise_all (map (measureFile en opts cwd) (filterFiles en opts st fs)) of
        Inl e \<Rightarrow> Inl e
      | Inr sizes \<Rightarrow> Inr (toMap fs sizes))"

definition load :: "env \<Rightarrow> options \<Rightarrow> closure \<Rightarrow> disk \<Rightarrow> string \<Rightarrow> js_error + jsval obj" where
  "load en opts st dsk outputPath =
     (case readFromDisk opts dsk of
        [] \<Rightarrow> getSizes en opts st outputPath
      | s # _ \<Rightarrow> Inr (toFileMap (files s)))"

definition writeToDisk :: "options \<Rightarrow> disk \<Rightarrow> snapshot \<Rightarrow> disk" where
  "writeToDisk opts dsk stats =
     (if list_ex (\<lambda>file. diff file \<noteq> 0) (files stats)
      then (let data = stats # readFromDisk opts dsk in
            if writeFile opts
            then dsk\<lparr>history_file := Some data, fs_log := fs_log dsk @ [EnsureFile, WriteJSON data]\<rparr>
            else dsk)
      else dsk)"

text \<open>
  \<open>save\<close> returns the snapshot it builds and the disk after \<open>writeToDisk\<close>. The hook
  \<open>options.save\<close> is not an option of the plugin and is taken as unset.
\<close>

definition save :: "env \<Rightarrow> options \<Rightarrow> disk \<Rightarrow> item list \<Rightarrow> snapshot \<times> disk" where
  "save en opts dsk items =
     (let stats = \<lparr>timestamp = now en, compressionType = compression opts,
                   snapshot_level = compressionLevel opts, files = map toFileDelta items\<rparr>
      in (stats, writeToDisk opts dsk stats))"

text \<open>\<open>getCompressedSize(assets[name].code)\<close>.\<close>

definition measureAsset ::
  "env \<Rightarrow> options \<Rightarrow> output_file obj \<Rightarrow> string \<Rightarrow> js_error + jsval" where
  "measureAsset en opts assets nm =
     (case map_of assets nm of
        None \<Rightarrow> Inl TypeError
      | Some outputFile \<Rightarrow>
          (case getCompressedSize en opts (code outputFile) of
             Inl e \<Rightarrow> Inl e
           | Inr n \<Rightarrow> Inr (Num n)))"

text \<open>
  \<open>outputSizes\<close>: the snapshot, the disk after \<open>save\<close> and what is printed; nothing is
  printed when there is no item.
\<close>

definition outputSizes ::
  "env \<Rightarrow> options \<Rightarrow> closure \<Rightarrow> disk \<Rightarrow> output_file obj
     \<Rightarrow> js_error + (snapshot \<times> disk \<times> console_entry list)" where
  "outputSizes en opts st dsk assets =
     (let sizesBefore = initialSizes st;
          assetNames = filterFiles en opts st (object_keys assets)
      in case promise_all (map (measureAsset en opts assets) assetNames) of
           Inl e \<Rightarrow> Inl e
         | Inr sizes \<Rightarrow>
             (let sizesAfter = toMap assetNames sizes;
                  items = outputSizes_items sizesBefore sizesAfter;
                  (stats, dsk') = save en opts dsk items
              in Inr (stats, dsk', (if items \<noteq> [] then [ConsoleLog items] else []))))"

text \<open>
  \<open>generateBundle\<close>: \<open>rejected\<close> is the error the returned promise rejects with, if any;
  an error of \<open>outputSizes\<close> goes to \<open>console.error\<close> instead.
\<close>

record run =
  rejected :: "js_error option"
  closure_after :: closure
  disk_after :: disk
  console :: "console_entry list"

definition generateBundle ::
  "env \<Rightarrow> options \<Rightarrow> closure \<Rightarrow> disk \<Rightarrow> string \<Rightarrow> output_file obj \<Rightarrow> run" where
  "generateBundle en opts st dsk outputPath bundle =
     (let chunks = filter (\<lambda>outputFile. ftype outputFile = Chunk) (map snd bundle);
          st1 = (case chunks of
                   [c] \<Rightarrow> st\<lparr>isSingleChunk := True, pattern_var := fileName c\<rparr>
                 | _ \<Rightarrow> st\<lparr>isSingleChunk := False\<rparr>)
      in case load en opts st1 dsk outputPath of
           Inl e \<Rightarrow> \<lparr>rejected = Some e, closure_after = st1, disk_after = dsk, console = []\<rparr>
         | Inr sizes \<Rightarrow>
             (let st2 = st1\<lparr>initialSizes := sizes\<rparr> in
              case outputSizes en opts st2 dsk bundle of
                Inl e \<Rightarrow>
                  \<lparr>rejected = None, closure_after = st2, disk_after = dsk,
                   console = [ConsoleError e]\<rparr>
              | Inr (stats, dsk', out) \<Rightarrow>
                  \<lparr>rejected = None, closure_after = st2, disk_after = dsk', console = out\<rparr>))"

section \<open>Concrete inputs\<close>

text \<open>
  A build directory with two scripts, collaborators that stand in for \<open>zlib\<close>, \<open>glob\<close>
  and \<open>minimatch\<close> on these names, and a history file whose two snapshots are stored
  oldest first.
\<close>

definition ex_opts :: options where
  "ex_opts = \<lparr>compression = NoCompression, compressionLevel = 6, pattern = ''**/*.js'',
              exclude = [], writeFile = True\<rparr>"

definition ex_env :: env where
  "ex_env = \<lparr>gzip = (\<lambda>level src. Inr (take 2 src)), brotliCompress = None,
             glob = (\<lambda>pat cwd ign. [''a.js'', ''b.js'']),
             minimatch = (\<lambda>pat file. pat = ''**/*.js'' \<or> pat = file),
             readFile = (\<lambda>cwd file. if file = ''a.js'' then Some [1, 2, 3]
                                    else if file = ''b.js'' then Some [4, 5] else None),
             now = 1700000000000\<rparr>"

definition ex_older :: snapshot where
  "ex_older = \<lparr>timestamp = 1680000000000, compressionType = NoCompression, snapshot_level = 6,
      files = [\<lparr>filename = ''a.js'', previous = 0, file_size = 900, diff = 900\<rparr>]\<rparr>"

definition ex_old :: snapshot where
  "ex_old = \<lparr>timestamp = 1690000000000, compressionType = NoCompression, snapshot_level = 6,
      files = [\<lparr>filename = ''a.js'', previous = 900, file_size = 1000, diff = 100\<rparr>,
               \<lparr>filename = ''gone.js'', previous = 300, file_size = 0, diff = - 300\<rparr>]\<rparr>"

definition ex_disk :: disk where
  "ex_disk = \<lparr>history_file = Some [ex_older, ex_old], fs_log = []\<rparr>"

definition ex_bundle :: "output_file obj" where
  "ex_bundle =
     [(''bundle.a1b2c3.js'',
         \<lparr>ftype = Chunk, fileName = ''bundle.a1b2c3.js'', code = Some [1, 2, 3, 4]\<rparr>),
      (''style.css'', \<lparr>ftype = Asset, fileName = ''style.css'', code = None\<rparr>)]"

text \<open>
  Collaborators that disagree (\<open>glob\<close> returns a file that \<open>minimatch\<close> rejects), a
  directory whose file cannot be read, a bundle of two chunks, a disk without history
  and the options with brotli selected.
\<close>

definition ex_env_strict :: env where
  "ex_env_strict = ex_env\<lparr>minimatch := (\<lambda>pat file. file = ''b.js'')\<rparr>"

definition ex_env_unreadable :: env where
  "ex_env_unreadable =
     ex_env\<lparr>glob := (\<lambda>pat cwd ign. [''a.js'']), readFile := (\<lambda>cwd file. None)\<rparr>"

definition ex_bundle2 :: "output_file obj" where
  "ex_bundle2 =
     [(''a.js'', \<lparr>ftype = Chunk, fileName = ''a.js'', code = Some [1, 2, 3, 4]\<rparr>),
      (''b.js'', \<lparr>ftype = Chunk, fileName = ''b.js'', code = Some [4, 5]\<rparr>)]"

definition ex_no_history :: disk where
  "ex_no_history = \<lparr>history_file = None, fs_log = []\<rparr>"

definition ex_brotli :: options where
  "ex_brotli = ex_opts\<lparr>compression := Brotli\<rparr>"



section \<open>Plain objects\<close>

lemma map_of_obj_set: "map_of (obj_set ob k v) = (map_of ob)(k \<mapsto> v)"
  by (induction ob) (auto simp: fun_eq_iff)

lemma keys_obj_set:
  "object_keys (obj_set ob k v) =
     (if k \<in> set (object_keys ob) then object_keys ob else object_keys ob @ [k])"
  unfolding object_keys_def by (induction ob) force+

lemma set_keys_obj_set: "set (object_keys (obj_set ob k v)) = insert k (set (object_keys ob))"
  by (auto simp: keys_obj_set)

lemma distinct_obj_set:
  "distinct (object_keys ob) \<Longrightarrow> distinct (object_keys (obj_set ob k v))"
  by (simp add: keys_obj_set)

lemma obj_set_new: "k \<notin> set (object_keys ob) \<Longrightarrow> obj_set ob k v = ob @ [(k, v)]"
  unfolding object_keys_def by (induction ob) auto

lemma set_obj_set: "set (obj_set ob k v) \<subseteq> insert (k, v) (set ob)"
  by (induction ob) (auto split: if_splits)

section \<open>First occurrences\<close>

lemma indexOf_lower: "- 1 \<le> indexOf xs x"
  by (induction xs) (auto simp: Let_def)

lemma indexOf_absent: "indexOf xs x = - 1 \<longleftrightarrow> x \<notin> set xs"
proof (induction xs)
  case Nil
  show ?case by simp
next
  case (Cons y ys)
  have "- 1 \<le> indexOf ys x" by (rule indexOf_lower)
  with Cons show ?case by (auto simp: Let_def)
qed

lemma indexOf_first:
  "indexOf xs x = int i \<longleftrightarrow> i < length xs \<and> xs ! i = x \<and> x \<notin> set (take i xs)"
proof (induction xs arbitrary: i)
  case Nil
  show ?case by simp
next
  case (Cons y ys)
  show ?case
  proof (cases i)
    case 0
    have "- 1 \<le> indexOf ys x" by (rule indexOf_lower)
    with 0 show ?thesis by (auto simp: Let_def)
  next
    case (Suc j)
    have "indexOf ys x + 1 = int (Suc j) \<longleftrightarrow> indexOf ys x = int j" by auto
    with Suc Cons [of j] show ?thesis
      by (auto simp: Let_def indexOf_absent)
  qed
qed

lemma array_filter_Nil: "array_filter p [] = []"
  by (simp add: array_filter_def)

lemma array_filter_dedupe_snoc:
  "array_filter dedupe (xs @ [x]) = array_filter dedupe xs @ (if x \<in> set xs then [] else [x])"
proof -
  have old: "filter (\<lambda>(item, index). dedupe item index (xs @ [x])) (zip xs [0..<length xs])
           = filter (\<lambda>(item, index). dedupe item index xs) (zip xs [0..<length xs])"
  proof (rule filter_cong [OF refl])
    fix p assume "p \<in> set (zip xs [0..<length xs])"
    then obtain i where i: "i < length xs" "p = (xs ! i, i)"
      by (auto simp: set_zip)
    then show "(case p of (item, index) \<Rightarrow> dedupe item index (xs @ [x]))
             = (case p of (item, index) \<Rightarrow> dedupe item index xs)"
      by (simp add: dedupe_def indexOf_first nth_append)
  qed
  have new: "dedupe x (length xs) (xs @ [x]) \<longleftrightarrow> x \<notin> set xs"
    by (simp add: dedupe_def indexOf_first)
  show ?thesis
    by (simp add: array_filter_def old new)
qed

lemma set_array_filter_dedupe: "set (array_filter dedupe xs) = set xs"
  by (induction xs rule: rev_induct) (auto simp: array_filter_dedupe_snoc array_filter_Nil)

lemma distinct_array_filter_dedupe: "distinct (array_filter dedupe xs)"
  by (induction xs rule: rev_induct)
     (auto simp: array_filter_dedupe_snoc set_array_filter_dedupe array_filter_Nil)

lemma array_filter_dedupe_distinct: "distinct xs \<Longrightarrow> array_filter dedupe xs = xs"
  by (induction xs rule: rev_induct) (auto simp: array_filter_dedupe_snoc array_filter_Nil)

lemma array_filter_dedupe_append:
  "array_filter dedupe (xs @ ys) =
     array_filter dedupe xs @ filter (\<lambda>y. y \<notin> set xs) (array_filter dedupe ys)"
proof (induction ys rule: rev_induct)
  case Nil
  show ?case by (simp add: array_filter_Nil)
next
  case (snoc y ys)
  have "array_filter dedupe (xs @ ys @ [y]) = array_filter dedupe ((xs @ ys) @ [y])" by simp
  also have "\<dots> = array_filter dedupe (xs @ ys) @ (if y \<in> set (xs @ ys) then [] else [y])"
    by (rule array_filter_dedupe_snoc)
  finally show ?case by (simp add: snoc array_filter_dedupe_snoc)
qed

section \<open>Reconciliation\<close>

lemma uniqueNames_distinct_keys:
  assumes "distinct (object_keys before)" and "distinct (object_keys after)"
  shows "uniqueNames before after =
           object_keys before @ filter (\<lambda>k. k \<notin> set (object_keys before)) (object_keys after)"
  using assms
  by (simp add: uniqueNames_def array_filter_dedupe_append array_filter_dedupe_distinct)

lemma reconcile_names: "map filename (reconcile before after) = uniqueNames before after"
  by (simp add: reconcile_def outputSizes_items_def toFileDelta_def mkItem_def Let_def o_def)

lemma or_zero_obj_get:
  "or_zero (obj_get ob k) = (case map_of ob k of Some (Num n) \<Rightarrow> n | _ \<Rightarrow> 0)"
  by (simp add: obj_get_def split: option.splits jsval.splits)

lemma reconcile_fields:
  assumes "d \<in> set (reconcile before after)"
  shows "previous d = or_zero (obj_get before (filename d))"
    and "file_size d = or_zero (obj_get after (filename d))"
    and "diff d = file_size d - previous d"
  using assms
  by (auto simp: reconcile_def outputSizes_items_def toFileDelta_def mkItem_def Let_def)

text \<open>
  C1. The reconciliation of the size maps \<open>before\<close> and \<open>after\<close> has one record per
  file name of the union of their keys, without duplicates; the keys of an object are
  distinct, and then the records come in the order of the keys of \<open>before\<close> followed
  by the keys of \<open>after\<close> that \<open>before\<close> does not have. In each record \<open>previous\<close> is
  \<open>before[name]\<close> and \<open>size\<close> is \<open>after[name]\<close>, both \<open>0\<close> when the name is absent (or
  its slot holds no number), and \<open>diff\<close> is \<open>size - previous\<close>.
\<close>

theorem reconcile_union_in_order:
  "distinct (map filename (reconcile before after))
   \<and> set (map filename (reconcile before after)) =
       set (object_keys before) \<union> set (object_keys after)
   \<and> length (reconcile before after) =
       card (set (object_keys before) \<union> set (object_keys after))
   \<and> (distinct (object_keys before) \<and> distinct (object_keys after) \<longrightarrow>
        map filename (reconcile before after) =
          object_keys before @ filter (\<lambda>k. k \<notin> set (object_keys before)) (object_keys after))
   \<and> (\<forall>d \<in> set (reconcile before after).
         previous d = (case map_of before (filename d) of Some (Num n) \<Rightarrow> n | _ \<Rightarrow> 0)
       \<and> file_size d = (case map_of after (filename d) of Some (Num n) \<Rightarrow> n | _ \<Rightarrow> 0)
       \<and> diff d = file_size d - previous d)"
proof -
  let ?names = "map filename (reconcile before after)"
  have names: "?names = uniqueNames before after"
    by (rule reconcile_names)
  have order: "distinct (object_keys before) \<and> distinct (object_keys after) \<longrightarrow> ?names =
      object_keys before @ filter (\<lambda>k. k \<notin> set (object_keys before)) (object_keys after)"
    by (simp add: names uniqueNames_distinct_keys)
  have dist: "distinct ?names"
    by (simp only: names uniqueNames_def distinct_array_filter_dedupe)
  have keys: "set ?names = set (object_keys before) \<union> set (object_keys after)"
    by (simp only: names uniqueNames_def set_array_filter_dedupe set_append)
  have "length (reconcile before after) = length ?names" by simp
  also have "\<dots> = card (set ?names)"
    using dist by (simp only: distinct_card)
  finally have len: "length (reconcile before after) =
      card (set (object_keys before) \<union> set (object_keys after))"
    by (simp only: keys)
  have fields: "\<forall>d \<in> set (reconcile before after).
             previous d = (case map_of before (filename d) of Some (Num n) \<Rightarrow> n | _ \<Rightarrow> 0)
           \<and> file_size d = (case map_of after (filename d) of Some (Num n) \<Rightarrow> n | _ \<Rightarrow> 0)
           \<and> diff d = file_size d - previous d"
    using reconcile_fields [of _ before after]
    by (simp add: or_zero_obj_get [symmetric])
  from order dist keys len fields show ?thesis by blast
qed

theorem reconcile_union_in_order_witness:
  "distinct (object_keys [(''a.js'', Num 1000)])
   \<and> distinct (object_keys [(''a.js'', Num 1200), (''b.js'', Num 500)])
   \<and> reconcile [(''a.js'', Num 1000)] [(''a.js'', Num 1200), (''b.js'', Num 500)] =
       [\<lparr>filename = ''a.js'', previous = 1000, file_size = 1200, diff = 200\<rparr>,
        \<lparr>filename = ''b.js'', previous = 0, file_size = 500, diff = 500\<rparr>]
   \<and> map filename (reconcile [(''a.js'', Num 1000)] [(''a.js'', Num 1200), (''b.js'', Num 500)]) =
       [''a.js'', ''b.js'']"
proof -
  have d1: "distinct (object_keys [(''a.js'', Num 1000)])"
    by (simp add: object_keys_def)
  have d2: "distinct (object_keys [(''a.js'', Num 1200), (''b.js'', Num 500)])"
    by (simp add: object_keys_def)
  have run: "reconcile [(''a.js'', Num 1000)] [(''a.js'', Num 1200), (''b.js'', Num 500)] =
       [\<lparr>filename = ''a.js'', previous = 1000, file_size = 1200, diff = 200\<rparr>,
        \<lparr>filename = ''b.js'', previous = 0, file_size = 500, diff = 500\<rparr>]"
    by (simp add: reconcile_def outputSizes_items_def uniqueNames_def array_filter_def
          dedupe_def object_keys_def toFileDelta_def mkItem_def obj_get_def Let_def upt_rec)
  from reconcile_union_in_order
    [of "[(''a.js'', Num 1000)]" "[(''a.js'', Num 1200), (''b.js'', Num 500)]"] d1 d2
  have "map filename (reconcile [(''a.js'', Num 1000)] [(''a.js'', Num 1200), (''b.js'', Num 500)]) =
       [''a.js'', ''b.js'']"
    by (simp add: object_keys_def)
  with d1 d2 run show ?thesis by blast
qed

section \<open>The snapshot built by save\<close>

text \<open>
  C2. In every snapshot that \<open>save\<close> builds, each record of \<open>files\<close> has
  \<open>diff = size - previous\<close>.
\<close>

theorem save_diff_is_size_minus_previous:
  "\<forall>d \<in> set (files (fst (save en opts dsk items))). diff d = file_size d - previous d"
  by (simp add: save_def toFileDelta_def Let_def)

theorem save_diff_is_size_minus_previous_witness:
  "files (fst (save ex_env ex_opts ex_disk
      [\<lparr>name = ''a.js'', sizeBefore = 1000, item_size = 1200, delta = 200\<rparr>])) =
     [\<lparr>filename = ''a.js'', previous = 1000, file_size = 1200, diff = 200\<rparr>]
   \<and> diff \<lparr>filename = ''a.js'', previous = 1000, file_size = 1200, diff = 200\<rparr> =
       file_size \<lparr>filename = ''a.js'', previous = 1000, file_size = 1200, diff = 200\<rparr>
       - previous \<lparr>filename = ''a.js'', previous = 1000, file_size = 1200, diff = 200\<rparr>"
proof -
  have fs: "files (fst (save ex_env ex_opts ex_disk
      [\<lparr>name = ''a.js'', sizeBefore = 1000, item_size = 1200, delta = 200\<rparr>])) =
     [\<lparr>filename = ''a.js'', previous = 1000, file_size = 1200, diff = 200\<rparr>]"
    by (simp add: save_def toFileDelta_def Let_def)
  from save_diff_is_size_minus_previous
    [of ex_env ex_opts ex_disk "[\<lparr>name = ''a.js'', sizeBefore = 1000, item_size = 1200, delta = 200\<rparr>]"]
  have "diff \<lparr>filename = ''a.js'', previous = 1000, file_size = 1200, diff = 200\<rparr> =
       file_size \<lparr>filename = ''a.js'', previous = 1000, file_size = 1200, diff = 200\<rparr>
       - previous \<lparr>filename = ''a.js'', previous = 1000, file_size = 1200, diff = 200\<rparr>"
    unfolding fs by simp
  with fs show ?thesis by blast
qed

section \<open>From a snapshot back to a size map\<close>

lemma toFileMap_snoc: "toFileMap (fs @ [f]) = toFileMap_step (toFileMap fs) f"
  by (simp add: toFileMap_def)

lemma toFileMap_lookup:
  "map_of (toFileMap fs) nm =
     (case filter (\<lambda>f. filename f = nm \<and> file_size f \<noteq> 0) fs of
        [] \<Rightarrow> None
      | g # gs \<Rightarrow> Some (Num (file_size (last (g # gs)))))"
proof (induction fs rule: rev_induct)
  case Nil
  show ?case by (simp add: toFileMap_def)
next
  case (snoc f fs)
  then show ?case
    by (auto simp: toFileMap_snoc toFileMap_step_def map_of_obj_set split: list.splits)
qed

lemma toFileMap_keys:
  "set (object_keys (toFileMap fs)) = {filename f |f. f \<in> set fs \<and> file_size f \<noteq> 0}"
proof (induction fs rule: rev_induct)
  case Nil
  show ?case by (simp add: toFileMap_def object_keys_def)
next
  case (snoc f fs)
  then show ?case
    by (auto simp: toFileMap_snoc toFileMap_step_def set_keys_obj_set)
qed

lemma toFileMap_distinct_keys: "distinct (object_keys (toFileMap fs))"
proof (induction fs rule: rev_induct)
  case Nil
  show ?case by (simp add: toFileMap_def object_keys_def)
next
  case (snoc f fs)
  then show ?case
    by (simp add: toFileMap_snoc toFileMap_step_def distinct_obj_set)
qed

lemma toFileMap_values:
  "(nm, v) \<in> set (toFileMap fs) \<Longrightarrow> \<exists>n. v = Num n \<and> n \<noteq> 0"
proof (induction fs arbitrary: nm v rule: rev_induct)
  case Nil
  then show ?case by (simp add: toFileMap_def)
next
  case (snoc f fs)
  show ?case
  proof (cases "file_size f = 0")
    case True
    with snoc show ?thesis by (simp add: toFileMap_snoc toFileMap_step_def)
  next
    case False
    with snoc.prems have "(nm, v) \<in> set (obj_set (toFileMap fs) (filename f) (Num (file_size f)))"
      by (simp add: toFileMap_snoc toFileMap_step_def)
    then have "(nm, v) = (filename f, Num (file_size f)) \<or> (nm, v) \<in> set (toFileMap fs)"
      using set_obj_set by fastforce
    with False snoc.IH show ?thesis by auto
  qed
qed

lemma toFileMap_distinct_names:
  "distinct (map filename fs) \<Longrightarrow>
     toFileMap fs = map (\<lambda>f. (filename f, Num (file_size f))) (filter (\<lambda>f. file_size f \<noteq> 0) fs)"
proof (induction fs rule: rev_induct)
  case Nil
  show ?case by (simp add: toFileMap_def)
next
  case (snoc f fs)
  then have IH: "toFileMap fs =
      map (\<lambda>f. (filename f, Num (file_size f))) (filter (\<lambda>f. file_size f \<noteq> 0) fs)"
    by simp
  from snoc.prems have "filename f \<notin> set (object_keys (toFileMap fs))"
    by (auto simp: toFileMap_keys)
  then have "obj_set (toFileMap fs) (filename f) (Num (file_size f)) =
      toFileMap fs @ [(filename f, Num (file_size f))]"
    by (rule obj_set_new)
  then show ?case
    by (simp add: toFileMap_snoc toFileMap_step_def IH [symmetric])
qed

text \<open>
  C3. \<open>toFileMap\<close>, which turns the \<open>files\<close> of the newest snapshot into the baseline
  size map, keeps exactly the file names that have a record of nonzero size and never
  an entry of size \<open>0\<close>. A name is mapped to the size of its last such record; when
  the file names are distinct, as in every snapshot that \<open>save\<close> builds from an object,
  the map is the list of records with the zero-size ones removed.
\<close>

theorem toFileMap_drops_zero_sizes:
  "set (object_keys (toFileMap fs)) = {filename f |f. f \<in> set fs \<and> file_size f \<noteq> 0}
   \<and> (\<forall>v. (nm, v) \<in> set (toFileMap fs) \<longrightarrow> (\<exists>n. v = Num n \<and> n \<noteq> 0))
   \<and> map_of (toFileMap fs) nm =
       (case filter (\<lambda>f. filename f = nm \<and> file_size f \<noteq> 0) fs of
          [] \<Rightarrow> None
        | g # gs \<Rightarrow> Some (Num (file_size (last (g # gs)))))
   \<and> (distinct (map filename fs) \<longrightarrow>
        toFileMap fs =
          map (\<lambda>f. (filename f, Num (file_size f))) (filter (\<lambda>f. file_size f \<noteq> 0) fs))"
  using toFileMap_keys [of fs] toFileMap_values [of nm _ fs] toFileMap_lookup [of fs nm]
    toFileMap_distinct_names [of fs]
  by blast

theorem toFileMap_drops_zero_sizes_witness:
  "distinct (map filename
      [\<lparr>filename = ''a.js'', previous = 1000, file_size = 1200, diff = 200\<rparr>,
       \<lparr>filename = ''gone.js'', previous = 300, file_size = 0, diff = - 300\<rparr>])
   \<and> toFileMap
      [\<lparr>filename = ''a.js'', previous = 1000, file_size = 1200, diff = 200\<rparr>,
       \<lparr>filename = ''gone.js'', previous = 300, file_size = 0, diff = - 300\<rparr>]
     = [(''a.js'', Num 1200)]
   \<and> map_of (toFileMap
      [\<lparr>filename = ''a.js'', previous = 1000, file_size = 1200, diff = 200\<rparr>,
       \<lparr>filename = ''gone.js'', previous = 300, file_size = 0, diff = - 300\<rparr>]) ''gone.js'' = None"
  using toFileMap_drops_zero_sizes
    [of "[\<lparr>filename = ''a.js'', previous = 1000, file_size = 1200, diff = 200\<rparr>,
          \<lparr>filename = ''gone.js'', previous = 300, file_size = 0, diff = - 300\<rparr>]" "''gone.js''"]
  by simp

section \<open>Reading and writing the history\<close>

lemma sort_key_head:
  assumes "hs \<noteq> []"
  shows "sort_key f hs \<noteq> []"
    and "hd (sort_key f hs) \<in> set hs"
    and "\<forall>t \<in> set hs. f (hd (sort_key f hs)) \<le> f t"
    and "hd (sort_key f hs) = hd (filter (\<lambda>t. f t = f (hd (sort_key f hs))) hs)"
proof -
  from assms have "length (sort_key f hs) \<noteq> 0" by simp
  then obtain s rest where sr: "sort_key f hs = s # rest"
    by (cases "sort_key f hs") auto
  then show "sort_key f hs \<noteq> []" by simp
  have "set (s # rest) = set hs"
    unfolding sr [symmetric] by simp
  then show "hd (sort_key f hs) \<in> set hs"
    unfolding sr by auto
  have "sorted (map f (s # rest))"
    unfolding sr [symmetric] by (rule sorted_sort_key)
  then have "\<forall>t \<in> set (s # rest). f s \<le> f t" by auto
  then have "\<forall>t \<in> set hs. f s \<le> f t"
    unfolding \<open>set (s # rest) = set hs\<close> .
  then show "\<forall>t \<in> set hs. f (hd (sort_key f hs)) \<le> f t"
    unfolding sr by simp
  have "filter (\<lambda>t. f t = f s) (s # rest) = filter (\<lambda>t. f t = f s) hs"
    unfolding sr [symmetric] by (rule sort_key_stable)
  then have "s # filter (\<lambda>t. f t = f s) rest = filter (\<lambda>t. f t = f s) hs" by simp
  then have "hd (filter (\<lambda>t. f t = f s) hs) = s" by (metis list.sel(1))
  then show "hd (sort_key f hs) = hd (filter (\<lambda>t. f t = f (hd (sort_key f hs))) hs)"
    unfolding sr by simp
qed

lemma readFromDisk_enabled:
  "writeFile opts \<Longrightarrow> history_file dsk = Some hs \<Longrightarrow>
     readFromDisk opts dsk = sort_key (\<lambda>s. - timestamp s) hs"
  by (simp add: readFromDisk_def)

lemma readFromDisk_newest_first:
  assumes "writeFile opts" and "history_file dsk = Some hs"
    and "sorted_wrt (\<lambda>a b. timestamp b \<le> timestamp a) hs"
  shows "readFromDisk opts dsk = hs"
proof -
  from assms(3) have "sorted (map (\<lambda>s. - timestamp s) hs)"
    by (simp add: sorted_map)
  then have "sort_key (\<lambda>s. - timestamp s) hs = hs"
    by (rule sort_key_id_if_sorted)
  with assms(1,2) show ?thesis by (simp add: readFromDisk_enabled)
qed

text \<open>
  C6. With writing enabled and a stored history that is not empty, \<open>load\<close> sorts the
  stored sequence by descending timestamp (a stable sort, so a history stored newest
  first is read as it is) and converts the \<open>files\<close> of the first snapshot of the sorted
  sequence: the first stored snapshot among those with the greatest timestamp.
\<close>

theorem load_converts_newest_snapshot:
  assumes "writeFile opts" and "history_file dsk = Some hs" and "hs \<noteq> []"
  shows "readFromDisk opts dsk = sort_key (\<lambda>s. - timestamp s) hs
       \<and> sorted_wrt (\<lambda>a b. timestamp b \<le> timestamp a) (readFromDisk opts dsk)
       \<and> mset (readFromDisk opts dsk) = mset hs
       \<and> hd (readFromDisk opts dsk) \<in> set hs
       \<and> (\<forall>t \<in> set hs. timestamp t \<le> timestamp (hd (readFromDisk opts dsk)))
       \<and> hd (readFromDisk opts dsk) =
           hd (filter (\<lambda>t. timestamp t = timestamp (hd (readFromDisk opts dsk))) hs)
       \<and> load en opts st dsk outputPath = Inr (toFileMap (files (hd (readFromDisk opts dsk))))"
proof -
  let ?key = "\<lambda>s. - timestamp s"
  have rd: "readFromDisk opts dsk = sort_key ?key hs"
    using assms(1,2) by (rule readFromDisk_enabled)
  have "sorted (map ?key (sort_key ?key hs))" by (rule sorted_sort_key)
  then have desc: "sorted_wrt (\<lambda>a b. timestamp b \<le> timestamp a) (sort_key ?key hs)"
    by (simp add: sorted_map)
  have perm: "mset (sort_key ?key hs) = mset hs" by simp
  have ne: "sort_key ?key hs \<noteq> []" using assms(3) by (rule sort_key_head(1))
  have mem: "hd (sort_key ?key hs) \<in> set hs" using assms(3) by (rule sort_key_head(2))
  have "\<forall>t \<in> set hs. ?key (hd (sort_key ?key hs)) \<le> ?key t"
    using assms(3) by (rule sort_key_head(3))
  then have top: "\<forall>t \<in> set hs. timestamp t \<le> timestamp (hd (sort_key ?key hs))" by simp
  have "hd (sort_key ?key hs) =
      hd (filter (\<lambda>t. ?key t = ?key (hd (sort_key ?key hs))) hs)"
    using assms(3) by (rule sort_key_head(4))
  then have first: "hd (sort_key ?key hs) =
      hd (filter (\<lambda>t. timestamp t = timestamp (hd (sort_key ?key hs))) hs)"
    by simp
  from ne obtain s rest where sr: "sort_key ?key hs = s # rest"
    by (cases "sort_key ?key hs") auto
  have ld: "load en opts st dsk outputPath = Inr (toFileMap (files (hd (sort_key ?key hs))))"
    by (simp add: load_def rd sr)
  from desc perm mem top first ld show ?thesis
    unfolding rd by blast
qed

theorem load_converts_newest_snapshot_witness:
  "writeFile ex_opts \<and> history_file ex_disk = Some [ex_older, ex_old] \<and> [ex_older, ex_old] \<noteq> []
   \<and> readFromDisk ex_opts ex_disk = [ex_old, ex_older]
   \<and> load ex_env ex_opts (bundleSize ex_opts) ex_disk ''dist'' = Inr [(''a.js'', Num 1000)]"
proof -
  have w: "writeFile ex_opts" by (simp add: ex_opts_def)
  have h: "history_file ex_disk = Some [ex_older, ex_old]" by (simp add: ex_disk_def)
  have n: "[ex_older, ex_old] \<noteq> []" by simp
  have r: "readFromDisk ex_opts ex_disk = [ex_old, ex_older]"
    by (simp add: readFromDisk_def ex_opts_def ex_disk_def ex_old_def ex_older_def)
  have "toFileMap (files ex_old) = [(''a.js'', Num 1000)]"
    by (simp add: toFileMap_def toFileMap_step_def ex_old_def)
  with load_converts_newest_snapshot [OF w h n, of ex_env "bundleSize ex_opts" "''dist''"]
  have "load ex_env ex_opts (bundleSize ex_opts) ex_disk ''dist'' = Inr [(''a.js'', Num 1000)]"
    by (simp add: r)
  with w h n r show ?thesis by blast
qed

text \<open>
  C4. When every record of the new snapshot has \<open>diff = 0\<close>, \<open>writeToDisk\<close> leaves the
  disk as it is: the history file keeps its contents and nothing is written; in
  particular a build whose sizes after equal the sizes before writes nothing. When
  some record has a nonzero \<open>diff\<close> and writing is enabled, the file is ensured and the
  new snapshot followed by the history as \<open>readFromDisk\<close> reads it is written: the
  stored snapshots, all of them, sorted by descending timestamp, which is the stored
  sequence itself when that is newest first, and the empty sequence when the file
  does not parse.
\<close>

theorem writeToDisk_only_on_change:
  "((\<forall>f \<in> set (files stats). diff f = 0) \<longrightarrow> writeToDisk opts dsk stats = dsk)
   \<and> ((\<exists>f \<in> set (files stats). diff f \<noteq> 0) \<and> writeFile opts \<longrightarrow>
        history_file (writeToDisk opts dsk stats) = Some (stats # readFromDisk opts dsk)
      \<and> fs_log (writeToDisk opts dsk stats) =
          fs_log dsk @ [EnsureFile, WriteJSON (stats # readFromDisk opts dsk)])
   \<and> (writeFile opts \<longrightarrow>
        readFromDisk opts dsk =
          (case history_file dsk of None \<Rightarrow> [] | Some hs \<Rightarrow> sort_key (\<lambda>s. - timestamp s) hs))
   \<and> (writeFile opts \<and> history_file dsk = Some hs \<longrightarrow>
        mset (readFromDisk opts dsk) = mset hs
      \<and> (sorted_wrt (\<lambda>a b. timestamp b \<le> timestamp a) hs \<longrightarrow> readFromDisk opts dsk = hs))
   \<and> snd (save en opts dsk (outputSizes_items sizes sizes)) = dsk"
proof -
  have a: "(\<forall>f \<in> set (files stats). diff f = 0) \<longrightarrow> writeToDisk opts dsk stats = dsk"
    by (auto simp: writeToDisk_def list_ex_iff)
  have b: "(\<exists>f \<in> set (files stats). diff f \<noteq> 0) \<and> writeFile opts \<longrightarrow>
        history_file (writeToDisk opts dsk stats) = Some (stats # readFromDisk opts dsk)
      \<and> fs_log (writeToDisk opts dsk stats) =
          fs_log dsk @ [EnsureFile, WriteJSON (stats # readFromDisk opts dsk)]"
    by (auto simp: writeToDisk_def list_ex_iff Let_def)
  have c: "writeFile opts \<longrightarrow>
        readFromDisk opts dsk =
          (case history_file dsk of None \<Rightarrow> [] | Some hs \<Rightarrow> sort_key (\<lambda>s. - timestamp s) hs)"
    by (simp add: readFromDisk_def)
  have d: "writeFile opts \<and> history_file dsk = Some hs \<longrightarrow>
        mset (readFromDisk opts dsk) = mset hs
      \<and> (sorted_wrt (\<lambda>a b. timestamp b \<le> timestamp a) hs \<longrightarrow> readFromDisk opts dsk = hs)"
    using readFromDisk_newest_first [of opts dsk hs]
    by (auto simp: readFromDisk_enabled)
  have e: "snd (save en opts dsk (outputSizes_items sizes sizes)) = dsk"
    by (simp add: save_def writeToDisk_def list_ex_iff outputSizes_items_def toFileDelta_def
        mkItem_def Let_def)
  from a b c d e show ?thesis by blast
qed

theorem writeToDisk_only_on_change_witness:
  "writeFile ex_opts
   \<and> writeToDisk ex_opts ex_disk (ex_old\<lparr>files :=
        [\<lparr>filename = ''a.js'', previous = 1000, file_size = 1000, diff = 0\<rparr>]\<rparr>) = ex_disk
   \<and> history_file (writeToDisk ex_opts ex_disk (ex_old\<lparr>timestamp := 1700000000000, files :=
        [\<lparr>filename = ''a.js'', previous = 1000, file_size = 1200, diff = 200\<rparr>]\<rparr>)) =
       Some [ex_old\<lparr>timestamp := 1700000000000, files :=
               [\<lparr>filename = ''a.js'', previous = 1000, file_size = 1200, diff = 200\<rparr>]\<rparr>,
             ex_old, ex_older]
   \<and> history_file (ex_disk\<lparr>history_file := Some [ex_old, ex_older]\<rparr>) = Some [ex_old, ex_older]
   \<and> sorted_wrt (\<lambda>a b. timestamp b \<le> timestamp a) [ex_old, ex_older]
   \<and> readFromDisk ex_opts (ex_disk\<lparr>history_file := Some [ex_old, ex_older]\<rparr>) =
       [ex_old, ex_older]"
proof -
  let ?same = "ex_old\<lparr>files :=
        [\<lparr>filename = ''a.js'', previous = 1000, file_size = 1000, diff = 0\<rparr>]\<rparr>"
  let ?grown = "ex_old\<lparr>timestamp := 1700000000000, files :=
        [\<lparr>filename = ''a.js'', previous = 1000, file_size = 1200, diff = 200\<rparr>]\<rparr>"
  have w: "writeFile ex_opts" by (simp add: ex_opts_def)
  have r: "readFromDisk ex_opts ex_disk = [ex_old, ex_older]"
    by (simp add: readFromDisk_def ex_opts_def ex_disk_def ex_old_def ex_older_def)
  have zero: "\<forall>f \<in> set (files ?same). diff f = 0" by simp
  have changed: "\<exists>f \<in> set (files ?grown). diff f \<noteq> 0" by simp
  have h: "history_file (ex_disk\<lparr>history_file := Some [ex_old, ex_older]\<rparr>) =
      Some [ex_old, ex_older]"
    by simp
  have newest_first: "sorted_wrt (\<lambda>a b. timestamp b \<le> timestamp a) [ex_old, ex_older]"
    by (simp add: ex_old_def ex_older_def)
  from writeToDisk_only_on_change [of ?same ex_opts ex_disk] zero
  have same: "writeToDisk ex_opts ex_disk ?same = ex_disk"
    by blast
  from writeToDisk_only_on_change [of ?grown ex_opts ex_disk] changed w
  have "history_file (writeToDisk ex_opts ex_disk ?grown) =
      Some (?grown # readFromDisk ex_opts ex_disk)"
    by blast
  then have grown: "history_file (writeToDisk ex_opts ex_disk ?grown) =
      Some [?grown, ex_old, ex_older]"
    by (simp only: r)
  from writeToDisk_only_on_change
    [of ?same ex_opts "ex_disk\<lparr>history_file := Some [ex_old, ex_older]\<rparr>" "[ex_old, ex_older]"]
    w h newest_first
  have kept: "readFromDisk ex_opts (ex_disk\<lparr>history_file := Some [ex_old, ex_older]\<rparr>) =
      [ex_old, ex_older]"
    by blast
  from w same grown h newest_first kept show ?thesis by blast
qed

section \<open>Persistence switched off\<close>

lemma outputSizes_disk:
  "outputSizes en opts st dsk assets = Inr (stats, dsk', out) \<Longrightarrow>
     \<exists>items. dsk' = snd (save en opts dsk items)"
  by (auto simp: outputSizes_def Let_def split: sum.splits prod.splits) (metis snd_conv)

lemma generateBundle_disk:
  "disk_after (generateBundle en opts st dsk outputPath bundle) = dsk
   \<or> (\<exists>items. disk_after (generateBundle en opts st dsk outputPath bundle) =
        snd (save en opts dsk items))"
  unfolding generateBundle_def Let_def
  by (auto split: sum.splits prod.splits dest!: outputSizes_disk)

text \<open>
  C7. With \<open>writeFile\<close> off, \<open>readFromDisk\<close> yields the empty history whatever the file
  holds, so \<open>load\<close> is the scan of the output directory; \<open>writeToDisk\<close> changes nothing,
  \<open>save\<close> still builds the snapshot, and a whole run of \<open>generateBundle\<close> leaves the disk
  as it found it.
\<close>

theorem persistence_disabled:
  assumes "\<not> writeFile opts"
  shows "readFromDisk opts dsk = []
       \<and> load en opts st dsk outputPath = getSizes en opts st outputPath
       \<and> writeToDisk opts dsk stats = dsk
       \<and> save en opts dsk items =
           (\<lparr>timestamp = now en, compressionType = compression opts,
             snapshot_level = compressionLevel opts, files = map toFileDelta items\<rparr>, dsk)
       \<and> disk_after (generateBundle en opts st dsk outputPath bundle) = dsk"
proof -
  have r: "readFromDisk opts dsk = []" using assms by (simp add: readFromDisk_def)
  have l: "load en opts st dsk outputPath = getSizes en opts st outputPath"
    by (simp add: load_def r)
  have w: "\<And>s. writeToDisk opts dsk s = dsk" using assms by (simp add: writeToDisk_def)
  have s: "\<And>its. save en opts dsk its =
           (\<lparr>timestamp = now en, compressionType = compression opts,
             snapshot_level = compressionLevel opts, files = map toFileDelta its\<rparr>, dsk)"
    by (simp add: save_def w)
  have g: "disk_after (generateBundle en opts st dsk outputPath bundle) = dsk"
    using generateBundle_disk [of en opts st dsk outputPath "bundle"] by (auto simp: s)
  from r l w s g show ?thesis by blast
qed

theorem persistence_disabled_witness:
  "\<not> writeFile (ex_opts\<lparr>writeFile := False\<rparr>)
   \<and> readFromDisk (ex_opts\<lparr>writeFile := False\<rparr>) ex_disk = []
   \<and> load ex_env (ex_opts\<lparr>writeFile := False\<rparr>) (bundleSize ex_opts) ex_disk ''dist'' =
       Inr [(''a.js'', Num 3), (''b.js'', Num 2)]
   \<and> disk_after (generateBundle ex_env (ex_opts\<lparr>writeFile := False\<rparr>) (bundleSize ex_opts)
        ex_disk ''dist'' ex_bundle) = ex_disk"
proof -
  have off: "\<not> writeFile (ex_opts\<lparr>writeFile := False\<rparr>)" by simp
  have scan: "getSizes ex_env (ex_opts\<lparr>writeFile := False\<rparr>) (bundleSize ex_opts) ''dist'' =
       Inr [(''a.js'', Num 3), (''b.js'', Num 2)]"
    by (simp add: getSizes_def filterFiles_def measureFile_def getCompressedSize_def
          byteLength_def toMap_def toMap_step_def value_at_def bundleSize_def ex_env_def
          ex_opts_def Let_def)
  from persistence_disabled [OF off, of ex_disk ex_env "bundleSize ex_opts" "''dist''" _ _ ex_bundle]
  show ?thesis by (simp add: scan)
qed

section \<open>Building a size map from names and values\<close>

lemma object_keys_Nil: "object_keys [] = []"
  by (simp add: object_keys_def)

lemma toMap_snoc:
  "toMap (names @ [n]) vs = obj_set (toMap names vs) n (value_at vs (length names))"
  by (simp add: toMap_def toMap_step_def)

lemma toMap_Nil: "toMap [] vs = []"
  by (simp add: toMap_def)

lemma toMap_keys: "set (object_keys (toMap names vs)) = set names"
  by (induction names rule: rev_induct)
     (simp_all add: toMap_snoc toMap_Nil set_keys_obj_set object_keys_Nil)

lemma toMap_distinct_keys: "distinct (object_keys (toMap names vs))"
  by (induction names rule: rev_induct)
     (simp_all add: toMap_snoc toMap_Nil distinct_obj_set object_keys_Nil)

lemma promise_all_Inr:
  "promise_all rs = Inr vs \<Longrightarrow> rs = map Inr vs"
proof (induction rs arbitrary: vs)
  case Nil
  then show ?case by simp
next
  case (Cons r rs)
  show ?case
  proof (cases r)
    case (Inl e)
    with Cons.prems show ?thesis by simp
  next
    case (Inr v)
    show ?thesis
    proof (cases "promise_all rs")
      case (Inl e)
      with Inr Cons.prems show ?thesis by simp
    next
      case tail: (Inr ws)
      with Inr Cons.prems have "vs = v # ws" by simp
      with Inr Cons.IH [OF tail] show ?thesis by simp
    qed
  qed
qed

lemma promise_all_Inl:
  "promise_all rs = Inl e \<Longrightarrow> Inl e \<in> set rs"
proof (induction rs)
  case Nil
  then show ?case by simp
next
  case (Cons r rs)
  show ?case
  proof (cases r)
    case (Inl e')
    with Cons.prems show ?thesis by simp
  next
    case (Inr v)
    show ?thesis
    proof (cases "promise_all rs")
      case (Inl e')
      with Inr Cons.prems have "e' = e" by simp
      with Inl Cons.IH show ?thesis by simp
    next
      case tail: (Inr ws)
      with Inr Cons.prems show ?thesis by simp
    qed
  qed
qed

lemma promise_all_single_error:
  assumes "Inl e \<in> set rs" and "\<forall>e'. Inl e' \<in> set rs \<longrightarrow> e' = e"
  shows "promise_all rs = Inl e"
proof (cases "promise_all rs")
  case (Inl e')
  then have "Inl e' \<in> set rs" by (rule promise_all_Inl)
  with assms(2) Inl show ?thesis by simp
next
  case (Inr vs)
  then have "rs = map Inr vs" by (rule promise_all_Inr)
  with assms(1) show ?thesis by auto
qed


lemma toMap_lookup_same:
  assumes "k \<in> set names" and "\<forall>i < length names. names ! i = k \<longrightarrow> value_at vs i = v"
  shows "map_of (toMap names vs) k = Some v"
  using assms
proof (induction names rule: rev_induct)
  case Nil
  then show ?case by simp
next
  case (snoc n names)
  show ?case
  proof (cases "n = k")
    case True
    from snoc.prems(2) have "(names @ [n]) ! length names = k \<longrightarrow> value_at vs (length names) = v"
      by simp
    with True show ?thesis by (simp add: toMap_snoc map_of_obj_set)
  next
    case False
    with snoc.prems(1) have mem: "k \<in> set names" by simp
    have "\<forall>i < length names. names ! i = k \<longrightarrow> value_at vs i = v"
    proof (intro allI impI)
      fix i assume "i < length names" and "names ! i = k"
      with snoc.prems(2) [rule_format, of i] show "value_at vs i = v"
        by (simp add: nth_append)
    qed
    with snoc.IH mem have "map_of (toMap names vs) k = Some v" by simp
    with False show ?thesis by (simp add: toMap_snoc map_of_obj_set)
  qed
qed

lemma toMap_distinct_names:
  "distinct names \<Longrightarrow>
     toMap names vs = map (\<lambda>i. (names ! i, value_at vs i)) [0..<length names]"
proof (induction names rule: rev_induct)
  case Nil
  show ?case by (simp add: toMap_Nil)
next
  case (snoc n names)
  then have IH: "toMap names vs = map (\<lambda>i. (names ! i, value_at vs i)) [0..<length names]"
    by simp
  from snoc.prems have "n \<notin> set (object_keys (toMap names vs))"
    by (simp add: toMap_keys)
  then have step: "obj_set (toMap names vs) n (value_at vs (length names)) =
      toMap names vs @ [(n, value_at vs (length names))]"
    by (rule obj_set_new)
  have "toMap (names @ [n]) vs = toMap names vs @ [(n, value_at vs (length names))]"
    by (simp only: toMap_snoc step)
  also have "\<dots> = map (\<lambda>i. (names ! i, value_at vs i)) [0..<length names]
      @ [(n, value_at vs (length names))]"
    by (simp only: IH)
  also have "map (\<lambda>i. (names ! i, value_at vs i)) [0..<length names] =
      map (\<lambda>i. ((names @ [n]) ! i, value_at vs i)) [0..<length names]"
    by (rule map_cong [OF refl]) (simp add: nth_append)
  finally show ?case by simp
qed

section \<open>The single chunk\<close>






section \<open>Scanning the output directory\<close>

lemma measureFile_unreadable: "readFile en cwd file = None \<Longrightarrow> measureFile en opts cwd file = Inr Null"
  by (simp add: measureFile_def)

lemma measureFile_error:
  "measureFile en opts cwd file = Inl e \<Longrightarrow>
     \<exists>source. readFile en cwd file = Some source \<and> getCompressedSize en opts (Some source) = Inl e"
  by (auto simp: measureFile_def split: option.splits sum.splits)

lemma getSizes_error:
  assumes "getSizes en opts st cwd = Inl e"
  shows "\<exists>file \<in> set (filterFiles en opts st (glob en (pattern_var st) cwd (exclude opts))).
           \<exists>source. readFile en cwd file = Some source
                  \<and> getCompressedSize en opts (Some source) = Inl e"
proof -
  let ?fs = "filterFiles en opts st (glob en (pattern_var st) cwd (exclude opts))"
  from assms have "promise_all (map (measureFile en opts cwd) ?fs) = Inl e"
    by (simp add: getSizes_def Let_def split: sum.splits)
  then have "Inl e \<in> set (map (measureFile en opts cwd) ?fs)"
    by (rule promise_all_Inl)
  then obtain nm where "nm \<in> set ?fs" and "measureFile en opts cwd nm = Inl e"
    by auto
  with measureFile_error show ?thesis by blast
qed

lemma getSizes_null_entry:
  assumes ok: "getSizes en opts st cwd = Inr m"
    and keep: "filterFiles en opts st (glob en (pattern_var st) cwd (exclude opts)) =
               glob en (pattern_var st) cwd (exclude opts)"
    and mem: "file \<in> set (glob en (pattern_var st) cwd (exclude opts))"
    and unreadable: "readFile en cwd file = None"
  shows "map_of m file = Some Null"
proof -
  let ?fs = "glob en (pattern_var st) cwd (exclude opts)"
  from ok keep obtain sizes where all: "promise_all (map (measureFile en opts cwd) ?fs) = Inr sizes"
    and m: "m = toMap ?fs sizes"
    by (auto simp: getSizes_def Let_def split: sum.splits)
  from all have eq: "map (measureFile en opts cwd) ?fs = map Inr sizes"
    by (rule promise_all_Inr)
  then have len: "length sizes = length ?fs"
    by (metis length_map)
  have "\<forall>i < length ?fs. ?fs ! i = file \<longrightarrow> value_at sizes i = Null"
  proof (intro allI impI)
    fix i assume i: "i < length ?fs" and at: "?fs ! i = file"
    from eq have "map (measureFile en opts cwd) ?fs ! i = map Inr sizes ! i" by simp
    with i len have "measureFile en opts cwd (?fs ! i) = Inr (sizes ! i)" by simp
    with at unreadable have "sizes ! i = Null" by (simp add: measureFile_unreadable)
    with i len show "value_at sizes i = Null" by (simp add: value_at_def)
  qed
  with mem show ?thesis unfolding m by (rule toMap_lookup_same)
qed

lemma measureAsset_reads_no_file:
  "measureAsset (en\<lparr>readFile := r\<rparr>) opts assets = measureAsset en opts assets"
  by (rule ext)
     (simp add: measureAsset_def getCompressedSize_def
        split: option.splits compression_type.splits)

lemma outputSizes_reads_no_file:
  "outputSizes (en\<lparr>readFile := r\<rparr>) opts st dsk assets = outputSizes en opts st dsk assets"
proof -
  have "filterFiles (en\<lparr>readFile := r\<rparr>) opts st (object_keys assets) =
      filterFiles en opts st (object_keys assets)"
    by (simp add: filterFiles_def)
  moreover have "\<And>items. save (en\<lparr>readFile := r\<rparr>) opts dsk items = save en opts dsk items"
    by (simp add: save_def)
  ultimately show ?thesis
    by (simp add: outputSizes_def measureAsset_reads_no_file Let_def cong: sum.case_cong)
qed

lemma getSizes_aligned:
  assumes ok: "getSizes en opts st cwd = Inr m"
    and keep: "filterFiles en opts st (glob en (pattern_var st) cwd (exclude opts)) =
               glob en (pattern_var st) cwd (exclude opts)"
    and dist: "distinct (glob en (pattern_var st) cwd (exclude opts))"
  shows "object_keys m = glob en (pattern_var st) cwd (exclude opts)"
    and "map (\<lambda>(nm, v). Inr v) m =
           map (measureFile en opts cwd) (glob en (pattern_var st) cwd (exclude opts))"
proof -
  let ?fs = "glob en (pattern_var st) cwd (exclude opts)"
  from ok keep obtain sizes where all: "promise_all (map (measureFile en opts cwd) ?fs) = Inr sizes"
    and m: "m = toMap ?fs sizes"
    by (auto simp: getSizes_def Let_def split: sum.splits)
  from all have eq: "map (measureFile en opts cwd) ?fs = map Inr sizes"
    by (rule promise_all_Inr)
  then have len: "length sizes = length ?fs"
    by (metis length_map)
  have tm: "m = map (\<lambda>i. (?fs ! i, value_at sizes i)) [0..<length ?fs]"
    by (simp only: m toMap_distinct_names [OF dist])
  show "object_keys m = ?fs"
    unfolding tm object_keys_def by (rule nth_equalityI) simp_all
  have "map (\<lambda>(nm, v). Inr v) m = map (\<lambda>i. Inr (sizes ! i)) [0..<length sizes]"
    unfolding tm by (simp add: o_def value_at_def len)
  also have "\<dots> = map Inr sizes"
    by (rule nth_equalityI) simp_all
  finally show "map (\<lambda>(nm, v). Inr v) m = map (measureFile en opts cwd) ?fs"
    by (simp add: eq)
qed

text \<open>
  C8. \<open>getSizes\<close> measures the files that pass \<open>filterFiles\<close> but pairs the sizes with
  the unfiltered result of \<open>glob\<close>. Here \<open>glob\<close> returns \<open>a.js\<close> (3 bytes) and \<open>b.js\<close>
  (2 bytes) and the filter drops \<open>a.js\<close>: the map keeps \<open>a.js\<close>, gives it the size of
  \<open>b.js\<close>, and leaves \<open>b.js\<close> with \<open>undefined\<close>. The map of the files that pass the
  filter would be \<open>b.js\<close> with size 2. (\<open>getSizes_aligned\<close> is the case in which the
  filter drops nothing.)
\<close>

theorem getSizes_misaligned_example:
  "glob ex_env_strict (pattern_var (bundleSize ex_opts)) ''dist'' (exclude ex_opts) = [''a.js'', ''b.js'']
   \<and> filterFiles ex_env_strict ex_opts (bundleSize ex_opts) [''a.js'', ''b.js''] = [''b.js'']
   \<and> measureFile ex_env_strict ex_opts ''dist'' ''a.js'' = Inr (Num 3)
   \<and> measureFile ex_env_strict ex_opts ''dist'' ''b.js'' = Inr (Num 2)
   \<and> getSizes ex_env_strict ex_opts (bundleSize ex_opts) ''dist'' =
       Inr [(''a.js'', Num 2), (''b.js'', Undefined)]"
  by (simp add: getSizes_def filterFiles_def measureFile_def getCompressedSize_def
        byteLength_def toMap_def toMap_step_def value_at_def bundleSize_def ex_env_strict_def
        ex_env_def ex_opts_def Let_def)

text \<open>
  C9, as stated, fails: the one file of the directory cannot be read, and the scan
  returns a map in which the file is a key, with the value \<open>null\<close>; the report has a
  row for it, which it would not have were the file absent from the map.
\<close>

theorem read_failure_entry_counterexample:
  "readFile ex_env_unreadable ''dist'' ''a.js'' = None
   \<and> getSizes ex_env_unreadable ex_opts (bundleSize ex_opts) ''dist'' = Inr [(''a.js'', Null)]
   \<and> ''a.js'' \<in> set (object_keys [(''a.js'', Null)])
   \<and> reconcile [(''a.js'', Null)] [] =
       [\<lparr>filename = ''a.js'', previous = 0, file_size = 0, diff = 0\<rparr>]
   \<and> reconcile [] [] = []"
  by (simp add: getSizes_def filterFiles_def measureFile_def toMap_def toMap_step_def
        value_at_def bundleSize_def ex_env_unreadable_def ex_env_def ex_opts_def Let_def
        object_keys_def reconcile_def outputSizes_items_def uniqueNames_def array_filter_def
        dedupe_def toFileDelta_def mkItem_def obj_get_def)

text \<open>
  C9, as the code has it. A file that cannot be read never makes the scan fail: an
  error of the scan is an error of \<open>getCompressedSize\<close> on a file that was read. When
  the filter keeps every file that \<open>glob\<close> returned, an unreadable file is a key of the
  baseline map with the value \<open>null\<close>, and the comparison takes its previous size as
  \<open>0\<close>. \<open>outputSizes\<close> reads no file: it measures the code held in the bundle.
\<close>

theorem read_failure_keeps_null_entry:
  "(getSizes en opts st cwd = Inl e \<longrightarrow>
      (\<exists>file \<in> set (filterFiles en opts st (glob en (pattern_var st) cwd (exclude opts))).
         \<exists>source. readFile en cwd file = Some source
                \<and> getCompressedSize en opts (Some source) = Inl e))
   \<and> (getSizes en opts st cwd = Inr m
        \<and> filterFiles en opts st (glob en (pattern_var st) cwd (exclude opts)) =
            glob en (pattern_var st) cwd (exclude opts)
        \<and> file \<in> set (glob en (pattern_var st) cwd (exclude opts))
        \<and> readFile en cwd file = None
      \<longrightarrow> map_of m file = Some Null
        \<and> file \<in> set (object_keys m)
        \<and> (\<forall>d \<in> set (reconcile m after). filename d = file \<longrightarrow> previous d = 0))
   \<and> outputSizes (en\<lparr>readFile := r\<rparr>) opts st dsk assets = outputSizes en opts st dsk assets"
proof -
  have a: "getSizes en opts st cwd = Inl e \<longrightarrow>
      (\<exists>file \<in> set (filterFiles en opts st (glob en (pattern_var st) cwd (exclude opts))).
         \<exists>source. readFile en cwd file = Some source
                \<and> getCompressedSize en opts (Some source) = Inl e)"
    using getSizes_error by blast
  have b: "map_of m file = Some Null
        \<and> file \<in> set (object_keys m)
        \<and> (\<forall>d \<in> set (reconcile m after). filename d = file \<longrightarrow> previous d = 0)"
    if ok: "getSizes en opts st cwd = Inr m"
      and keep: "filterFiles en opts st (glob en (pattern_var st) cwd (exclude opts)) =
            glob en (pattern_var st) cwd (exclude opts)"
      and mem: "file \<in> set (glob en (pattern_var st) cwd (exclude opts))"
      and unreadable: "readFile en cwd file = None"
  proof -
    from ok keep mem unreadable have null: "map_of m file = Some Null"
      by (rule getSizes_null_entry)
    then have key: "file \<in> set (object_keys m)"
      by (metis object_keys_def domI dom_map_of_conv_image_fst set_map)
    have "\<forall>d \<in> set (reconcile m after). filename d = file \<longrightarrow> previous d = 0"
      using null by (auto simp: reconcile_fields(1) obj_get_def)
    with null key show ?thesis by blast
  qed
  have c: "outputSizes (en\<lparr>readFile := r\<rparr>) opts st dsk assets = outputSizes en opts st dsk assets"
    by (rule outputSizes_reads_no_file)
  from a b c show ?thesis by blast
qed

theorem read_failure_keeps_null_entry_witness:
  "getSizes ex_env_unreadable ex_opts (bundleSize ex_opts) ''dist'' = Inr [(''a.js'', Null)]
   \<and> filterFiles ex_env_unreadable ex_opts (bundleSize ex_opts)
        (glob ex_env_unreadable (pattern_var (bundleSize ex_opts)) ''dist'' (exclude ex_opts)) =
       glob ex_env_unreadable (pattern_var (bundleSize ex_opts)) ''dist'' (exclude ex_opts)
   \<and> ''a.js'' \<in> set (glob ex_env_unreadable (pattern_var (bundleSize ex_opts)) ''dist'' (exclude ex_opts))
   \<and> readFile ex_env_unreadable ''dist'' ''a.js'' = None
   \<and> map_of [(''a.js'', Null)] ''a.js'' = Some Null
   \<and> ''a.js'' \<in> set (object_keys [(''a.js'', Null)])
   \<and> reconcile [(''a.js'', Null)] [(''a.js'', Num 7)] =
       [\<lparr>filename = ''a.js'', previous = 0, file_size = 7, diff = 7\<rparr>]
   \<and> getSizes ex_env ex_brotli (bundleSize ex_opts) ''dist'' = Inl BrotliNotSupported
   \<and> (\<exists>nm \<in> set (filterFiles ex_env ex_brotli (bundleSize ex_opts)
          (glob ex_env (pattern_var (bundleSize ex_opts)) ''dist'' (exclude ex_brotli))).
        \<exists>source. readFile ex_env ''dist'' nm = Some source
               \<and> getCompressedSize ex_env ex_brotli (Some source) = Inl BrotliNotSupported)"
proof -
  have ok: "getSizes ex_env_unreadable ex_opts (bundleSize ex_opts) ''dist'' = Inr [(''a.js'', Null)]"
    by (simp add: getSizes_def filterFiles_def measureFile_def toMap_def toMap_step_def
          value_at_def bundleSize_def ex_env_unreadable_def ex_env_def ex_opts_def Let_def)
  have keep: "filterFiles ex_env_unreadable ex_opts (bundleSize ex_opts)
        (glob ex_env_unreadable (pattern_var (bundleSize ex_opts)) ''dist'' (exclude ex_opts)) =
       glob ex_env_unreadable (pattern_var (bundleSize ex_opts)) ''dist'' (exclude ex_opts)"
    by (simp add: filterFiles_def bundleSize_def ex_env_unreadable_def ex_env_def ex_opts_def)
  have mem: "''a.js'' \<in> set (glob ex_env_unreadable (pattern_var (bundleSize ex_opts)) ''dist''
      (exclude ex_opts))"
    by (simp add: ex_env_unreadable_def)
  have unreadable: "readFile ex_env_unreadable ''dist'' ''a.js'' = None"
    by (simp add: ex_env_unreadable_def)
  from read_failure_keeps_null_entry
    [of ex_env_unreadable ex_opts "bundleSize ex_opts" "''dist''" _ "[(''a.js'', Null)]" "''a.js''"
        "[(''a.js'', Num 7)]"]
    ok keep mem unreadable
  have entry: "map_of [(''a.js'', Null)] ''a.js'' = Some Null
      \<and> ''a.js'' \<in> set (object_keys [(''a.js'', Null)])
      \<and> (\<forall>d \<in> set (reconcile [(''a.js'', Null)] [(''a.js'', Num 7)]).
            filename d = ''a.js'' \<longrightarrow> previous d = 0)"
    by blast
  have row: "reconcile [(''a.js'', Null)] [(''a.js'', Num 7)] =
       [\<lparr>filename = ''a.js'', previous = 0, file_size = 7, diff = 7\<rparr>]"
    by (simp add: object_keys_def reconcile_def outputSizes_items_def uniqueNames_def
          array_filter_def dedupe_def toFileDelta_def mkItem_def obj_get_def)
  have failed: "getSizes ex_env ex_brotli (bundleSize ex_opts) ''dist'' = Inl BrotliNotSupported"
    by (simp add: getSizes_def filterFiles_def measureFile_def getCompressedSize_def
          bundleSize_def ex_env_def ex_opts_def ex_brotli_def Let_def)
  from read_failure_keeps_null_entry
    [of ex_env ex_brotli "bundleSize ex_opts" "''dist''" BrotliNotSupported]
    failed
  have cause: "\<exists>nm \<in> set (filterFiles ex_env ex_brotli (bundleSize ex_opts)
          (glob ex_env (pattern_var (bundleSize ex_opts)) ''dist'' (exclude ex_brotli))).
        \<exists>source. readFile ex_env ''dist'' nm = Some source
               \<and> getCompressedSize ex_env ex_brotli (Some source) = Inl BrotliNotSupported"
    by blast
  from ok keep mem unreadable entry row failed cause show ?thesis by blast
qed

section \<open>Errors of the compression measurer\<close>

lemma getCompressedSize_brotli_missing:
  "compression opts = Brotli \<Longrightarrow> brotliCompress en = None \<Longrightarrow>
     getCompressedSize en opts source = Inl BrotliNotSupported"
  by (simp add: getCompressedSize_def)

lemma getCompressedSize_gzip_undefined:
  "compression opts = Gzip \<Longrightarrow>
     getCompressedSize en opts None = getCompressedSize en opts (Some [])"
  by (simp add: getCompressedSize_def run_compressor_def)

lemma getCompressedSize_none:
  "compression opts = NoCompression \<Longrightarrow>
     getCompressedSize en opts (Some src) = Inr (int (length src))"
  by (simp add: getCompressedSize_def byteLength_def)

lemma measureFile_brotli_missing:
  assumes "compression opts = Brotli" and "brotliCompress en = None"
  shows "measureFile en opts cwd nm = Inr Null \<or> measureFile en opts cwd nm = Inl BrotliNotSupported"
    and "readFile en cwd nm \<noteq> None \<Longrightarrow> measureFile en opts cwd nm = Inl BrotliNotSupported"
  using assms
  by (auto simp: measureFile_def getCompressedSize_brotli_missing split: option.splits)

lemma getSizes_brotli_missing:
  assumes b: "compression opts = Brotli" and n: "brotliCompress en = None"
    and r: "\<exists>nm \<in> set (filterFiles en opts st (glob en (pattern_var st) cwd (exclude opts))).
              readFile en cwd nm \<noteq> None"
  shows "getSizes en opts st cwd = Inl BrotliNotSupported"
proof -
  let ?fs = "filterFiles en opts st (glob en (pattern_var st) cwd (exclude opts))"
  let ?rs = "map (measureFile en opts cwd) ?fs"
  from r obtain nm where "nm \<in> set ?fs" and "readFile en cwd nm \<noteq> None" by blast
  with measureFile_brotli_missing(2) [OF b n] have "Inl BrotliNotSupported \<in> set ?rs"
    by force
  moreover have "\<forall>e'. Inl e' \<in> set ?rs \<longrightarrow> e' = BrotliNotSupported"
  proof (intro allI impI)
    fix e' assume "Inl e' \<in> set ?rs"
    then obtain nm' where "measureFile en opts cwd nm' = Inl e'" by auto
    with measureFile_brotli_missing(1) [OF b n, of cwd nm'] show "e' = BrotliNotSupported"
      by simp
  qed
  ultimately have "promise_all ?rs = Inl BrotliNotSupported"
    by (rule promise_all_single_error)
  then show ?thesis by (simp add: getSizes_def Let_def)
qed

lemma getSizes_ignores_initialSizes:
  "getSizes en opts (st\<lparr>initialSizes := sizes\<rparr>) cwd = getSizes en opts st cwd"
  by (simp add: getSizes_def filterFiles_def)

lemma load_ignores_initialSizes:
  "load en opts (st\<lparr>initialSizes := sizes\<rparr>) dsk outputPath = load en opts st dsk outputPath"
  by (simp add: load_def getSizes_ignores_initialSizes cong: list.case_cong)

lemma generateBundle_rejected:
  "rejected (generateBundle en opts st dsk outputPath bundle) =
     (case load en opts (closure_after (generateBundle en opts st dsk outputPath bundle)) dsk
             outputPath of
        Inl e \<Rightarrow> Some e
      | Inr sizes \<Rightarrow> None)"
  unfolding generateBundle_def Let_def
  by (auto simp: load_ignores_initialSizes split: sum.splits prod.splits)

lemma generateBundle_logs_error:
  assumes "load en opts (closure_after (generateBundle en opts st dsk outputPath bundle)) dsk
             outputPath = Inr sizes"
    and "outputSizes en opts (closure_after (generateBundle en opts st dsk outputPath bundle)) dsk
             bundle = Inl e"
  shows "rejected (generateBundle en opts st dsk outputPath bundle) = None"
    and "console (generateBundle en opts st dsk outputPath bundle) = [ConsoleError e]"
    and "disk_after (generateBundle en opts st dsk outputPath bundle) = dsk"
  using assms unfolding generateBundle_def Let_def
  by (auto simp: load_ignores_initialSizes split: sum.splits prod.splits)

lemmas ex_eval_defs =
  generateBundle_def load_def readFromDisk_def getSizes_def outputSizes_def filterFiles_def
  measureFile_def measureAsset_def getCompressedSize_def byteLength_def toMap_def toMap_step_def
  value_at_def toFileMap_def toFileMap_step_def bundleSize_def object_keys_def
  ex_env_def ex_opts_def ex_brotli_def ex_disk_def ex_old_def ex_older_def ex_bundle_def
  ex_bundle2_def ex_no_history_def Let_def

lemma ex_brotli_logged:
  "generateBundle ex_env ex_brotli (bundleSize ex_opts) ex_disk ''dist'' ex_bundle =
     \<lparr>rejected = None,
      closure_after = \<lparr>pattern_var = ''bundle.a1b2c3.js'', initialSizes = [(''a.js'', Num 1000)],
                       isSingleChunk = True\<rparr>,
      disk_after = ex_disk, console = [ConsoleError BrotliNotSupported]\<rparr>"
  by (simp add: ex_eval_defs)

lemma ex_brotli_rejected:
  "generateBundle ex_env ex_brotli (bundleSize ex_opts) ex_no_history ''dist'' ex_bundle2 =
     \<lparr>rejected = Some BrotliNotSupported,
      closure_after = \<lparr>pattern_var = ''**/*.js'', initialSizes = [], isSingleChunk = False\<rparr>,
      disk_after = ex_no_history, console = []\<rparr>"
  by (simp add: ex_eval_defs)

text \<open>
  C10, as stated, fails: brotli is selected and missing, a history exists, and the
  measurement of the chunk fails in \<open>outputSizes\<close>; \<open>generateBundle\<close> is not rejected,
  the error goes to \<open>console.error\<close>.
\<close>

theorem brotli_error_logged_counterexample:
  "compression ex_brotli = Brotli \<and> brotliCompress ex_env = None
   \<and> measureAsset ex_env ex_brotli ex_bundle ''bundle.a1b2c3.js'' = Inl BrotliNotSupported
   \<and> rejected (generateBundle ex_env ex_brotli (bundleSize ex_opts) ex_disk ''dist'' ex_bundle) =
       None
   \<and> console (generateBundle ex_env ex_brotli (bundleSize ex_opts) ex_disk ''dist'' ex_bundle) =
       [ConsoleError BrotliNotSupported]"
  by (simp add: ex_brotli_logged)
    (simp add: measureAsset_def getCompressedSize_def ex_brotli_def ex_env_def ex_opts_def
      ex_bundle_def)

text \<open>
  C10, as the code has it. When brotli is selected and \<open>zlib.brotliCompress\<close> is missing,
  \<open>getCompressedSize\<close> fails with an error for every source, and a baseline scan that
  reads at least one file fails with it. \<open>generateBundle\<close> is rejected exactly when
  loading the baseline fails; an error of \<open>outputSizes\<close> is printed with \<open>console.error\<close>
  and \<open>generateBundle\<close> completes, with the disk untouched. With no compression the
  result is the byte length of the source.
\<close>

theorem brotli_missing_and_no_compression:
  "(compression opts = Brotli \<and> brotliCompress en = None \<longrightarrow>
      getCompressedSize en opts source = Inl BrotliNotSupported
    \<and> ((\<exists>nm \<in> set (filterFiles en opts st (glob en (pattern_var st) cwd (exclude opts))).
           readFile en cwd nm \<noteq> None)
       \<longrightarrow> getSizes en opts st cwd = Inl BrotliNotSupported))
   \<and> rejected (generateBundle en opts st dsk outputPath bundle) =
       (case load en opts (closure_after (generateBundle en opts st dsk outputPath bundle)) dsk
               outputPath of
          Inl e \<Rightarrow> Some e
        | Inr sizes \<Rightarrow> None)
   \<and> (load en opts (closure_after (generateBundle en opts st dsk outputPath bundle)) dsk
          outputPath = Inr sizes
        \<and> outputSizes en opts (closure_after (generateBundle en opts st dsk outputPath bundle)) dsk
            bundle = Inl e
      \<longrightarrow> rejected (generateBundle en opts st dsk outputPath bundle) = None
        \<and> console (generateBundle en opts st dsk outputPath bundle) = [ConsoleError e]
        \<and> disk_after (generateBundle en opts st dsk outputPath bundle) = dsk)
   \<and> (compression opts' = NoCompression \<longrightarrow>
        getCompressedSize en opts' (Some src) = Inr (int (length src)))"
  using getCompressedSize_brotli_missing [of opts en source]
    getSizes_brotli_missing [of opts en st cwd]
    generateBundle_rejected [of en opts st dsk outputPath "bundle"]
    generateBundle_logs_error [of en opts st dsk outputPath "bundle" sizes e]
    getCompressedSize_none [of opts' en src]
  by blast

theorem brotli_missing_and_no_compression_witness:
  "compression ex_brotli = Brotli \<and> brotliCompress ex_env = None
   \<and> getCompressedSize ex_env ex_brotli (Some [1, 2, 3, 4]) = Inl BrotliNotSupported
   \<and> getSizes ex_env ex_brotli (bundleSize ex_opts) ''dist'' = Inl BrotliNotSupported
   \<and> rejected (generateBundle ex_env ex_brotli (bundleSize ex_opts) ex_no_history ''dist''
        ex_bundle2) = Some BrotliNotSupported
   \<and> console (generateBundle ex_env ex_brotli (bundleSize ex_opts) ex_disk ''dist'' ex_bundle) =
       [ConsoleError BrotliNotSupported]
   \<and> compression ex_opts = NoCompression
   \<and> getCompressedSize ex_env ex_opts (Some [1, 2, 3]) = Inr 3"
proof -
  have b: "compression ex_brotli = Brotli" and n: "brotliCompress ex_env = None"
    and c: "compression ex_opts = NoCompression"
    by (simp_all add: ex_brotli_def ex_env_def ex_opts_def)
  have readable: "\<exists>nm \<in> set (filterFiles ex_env ex_brotli (bundleSize ex_opts)
        (glob ex_env (pattern_var (bundleSize ex_opts)) ''dist'' (exclude ex_brotli))).
        readFile ex_env ''dist'' nm \<noteq> None"
    by (simp add: filterFiles_def bundleSize_def ex_env_def ex_opts_def ex_brotli_def)
  have ld: "load ex_env ex_brotli
        (closure_after (generateBundle ex_env ex_brotli (bundleSize ex_opts) ex_disk ''dist''
           ex_bundle)) ex_disk ''dist'' = Inr [(''a.js'', Num 1000)]"
    unfolding ex_brotli_logged by (simp add: ex_eval_defs)
  have out: "outputSizes ex_env ex_brotli
        (closure_after (generateBundle ex_env ex_brotli (bundleSize ex_opts) ex_disk ''dist''
           ex_bundle)) ex_disk ex_bundle = Inl BrotliNotSupported"
    unfolding ex_brotli_logged by (simp add: ex_eval_defs)
  note logged = brotli_missing_and_no_compression
    [of ex_brotli ex_env "Some [1, 2, 3, 4]" "bundleSize ex_opts" "''dist''" ex_disk "''dist''"
        ex_bundle "[(''a.js'', Num 1000)]" BrotliNotSupported ex_opts "[1, 2, 3]"]
  from logged b n have m: "getCompressedSize ex_env ex_brotli (Some [1, 2, 3, 4]) =
      Inl BrotliNotSupported"
    by blast
  from logged b n readable
  have s: "getSizes ex_env ex_brotli (bundleSize ex_opts) ''dist'' = Inl BrotliNotSupported"
    by blast
  from logged ld out
  have l: "console (generateBundle ex_env ex_brotli (bundleSize ex_opts) ex_disk ''dist''
      ex_bundle) = [ConsoleError BrotliNotSupported]"
    by blast
  from logged c have z: "getCompressedSize ex_env ex_opts (Some [1, 2, 3]) = Inr (int (length [1, 2, 3 :: 8 word]))"
    by blast
  have ld2: "load ex_env ex_brotli
        (closure_after (generateBundle ex_env ex_brotli (bundleSize ex_opts) ex_no_history
           ''dist'' ex_bundle2)) ex_no_history ''dist'' = Inl BrotliNotSupported"
    unfolding ex_brotli_rejected by (simp add: ex_eval_defs)
  from brotli_missing_and_no_compression
    [of ex_brotli ex_env "Some [1, 2, 3, 4]" "bundleSize ex_opts" "''dist''" ex_no_history
        "''dist''" ex_bundle2 "[]" BrotliNotSupported ex_opts "[1, 2, 3]"]
  have "rejected (generateBundle ex_env ex_brotli (bundleSize ex_opts) ex_no_history ''dist''
        ex_bundle2) =
      (case load ex_env ex_brotli
        (closure_after (generateBundle ex_env ex_brotli (bundleSize ex_opts) ex_no_history
           ''dist'' ex_bundle2)) ex_no_history ''dist'' of
         Inl e \<Rightarrow> Some e | Inr sizes \<Rightarrow> None)"
    by blast
  then have r: "rejected (generateBundle ex_env ex_brotli (bundleSize ex_opts) ex_no_history
        ''dist'' ex_bundle2) = Some BrotliNotSupported"
    by (simp only: ld2 sum.case)
  from b n m s r l c z show ?thesis by simp
qed

end
